theory Spec2Isabelle
  imports Complex_Main "HOL-Library.Word"
begin

section \<open>The synchronous retry engine (execute_sync_request.h)\<close>

subsection \<open>Messages, options and exceptions\<close>

text \<open>
  Modelled from the spec: the enumeration \<open>xtreemfs::pbrpc::ErrorType\<close> is declared in
  pbrpc/RPC.pb.h, which is not among the sources. The spec lists the categories
  PosixError, IOError, InternalServerError, Redirect and Other; the four that the
  \<open>switch\<close> of \<open>ExecuteSyncRequest\<close> names keep their source names, and every other
  enumerator is \<open>OTHER n\<close>, with \<open>n\<close> its number on the wire.
\<close>

datatype ErrorType = ERRNO | IO_ERROR | INTERNAL_SERVER_ERROR | REDIRECT | OTHER int

text \<open>
  \<open>RPCHeader::ErrorResponse\<close>, with the four fields that \<open>ExecuteSyncRequest\<close> reads.
  The optional protobuf field \<open>redirect_to_server_uuid\<close> is \<open>None\<close> when
  \<open>has_redirect_to_server_uuid()\<close> is false.
\<close>

record ErrorResponse =
  error_type :: ErrorType
  error_message :: string
  posix_errno :: int
  redirect_to_server_uuid :: "string option"

text \<open>
  Modelled from the spec: the response class (rpc/sync_callback.h) is not among the
  sources. The spec describes a response object exposing \<open>HasFailed()\<close> and, on
  failure, an \<open>ErrorResponse\<close>; \<open>'m\<close> is the payload of a successful call.
\<close>

datatype 'm response = Succeeded 'm | Failed ErrorResponse

fun HasFailed :: "'m response \<Rightarrow> bool" where
  "HasFailed (Succeeded m) = False"
| "HasFailed (Failed e) = True"

text \<open>The two fields of \<open>Options\<close> (libxtreemfs/options.h) that the function reads.\<close>

record Options =
  interrupt_signal :: int
  retry_delay_s :: int

datatype XtreemFSException =
    PosixErrorException int string
  | IOException string
  | InternalServerErrorException string
  | ReplicationRedirectionException string
  | XtreemFSException string

datatype LogLevel = LEVEL_ERROR | LEVEL_INFO | LEVEL_DEBUG

text \<open>
  What the function takes from the generated protobuf code: the number of
  \<open>POSIX_ERROR_ENOENT\<close> and the two enum descriptors, as lookups from a number to the
  enumerator's name (\<open>FindValueByNumber\<close>, \<open>None\<close> for the null pointer).
\<close>

record pbrpc =
  POSIX_ERROR_ENOENT :: int
  POSIXErrno_name :: "int \<Rightarrow> string option"
  ErrorType_name :: "int \<Rightarrow> string option"

text \<open>\<open>EINTR\<close> of \<open><cerrno>\<close>; 4 on Linux, the BSDs, macOS and Windows.\<close>

definition EINTR :: int where
  "EINTR = 4"

subsection \<open>Decimal rendering (\<open>boost::lexical_cast<std::string>\<close>, \<open>operator<<\<close>)\<close>

fun string_of_nat :: "nat \<Rightarrow> string" where
  "string_of_nat n =
     (if n < 10 then [''0123456789'' ! n]
      else string_of_nat (n div 10) @ [''0123456789'' ! (n mod 10)])"

definition string_of_int :: "int \<Rightarrow> string" where
  "string_of_int i = (if i < 0 then CHR ''-'' # string_of_nat (nat (- i)) else string_of_nat (nat i))"

subsection \<open>The world outside the function\<close>

text \<open>
  The function reads the clock (\<open>time(NULL)\<close>), reads and clears the thread's interrupt
  flag (\<open>intr_pointer\<close>, set by the signal handler \<open>InterruptSyncRequest\<close>) and swaps a
  signal handler. The world holds what those calls see: \<open>now\<close> is the value
  \<open>time(NULL)\<close> returns, in seconds, \<open>intr_pointer\<close> is true when the pointer is not
  NULL, and \<open>ext\<close> is everything else (the server, the network, signals to come).
  Time passes and signals arrive only inside the two calls that block: the attempt
  \<open>sync_function\<close> and \<open>boost::this_thread::sleep\<close>. Both are parameters of the model,
  as functions on the world, and nothing is assumed of them.

  The clock readings are 64-bit in the source; they are seconds since the epoch and
  are modelled as \<open>int\<close>. The attempt counter and \<open>max_tries\<close> are C++ \<open>int\<close>s and are
  32-bit words compared as signed numbers, so that \<open>++attempt\<close> wraps around.
\<close>

datatype sighandler = SIG_IGN | SIG_DFL | InterruptSyncRequest | OtherHandler nat

record 'x world =
  now :: int
  intr_pointer :: bool
  signal_handlers :: "int \<Rightarrow> sighandler"
  ext :: 'x

text \<open>\<open>signal(signum, handler)\<close>: installs the handler and returns the previous one.\<close>

definition signal :: "int \<Rightarrow> sighandler \<Rightarrow> 'x world \<Rightarrow> sighandler \<times> 'x world" where
  "signal signum handler w =
     (signal_handlers w signum, w\<lparr>signal_handlers := (signal_handlers w)(signum := handler)\<rparr>)"

subsection \<open>The loops\<close>

text \<open>
  The local variables of \<open>ExecuteSyncRequest\<close> and the world. \<open>calls\<close> is a ghost
  counter: it is incremented exactly where \<open>sync_function()\<close> is invoked.
  Deleting a response is setting \<open>response\<close> to \<open>None\<close> or overwriting it.
\<close>

record ('m, 'x) locals =
  attempt :: "32 word"
  interrupted :: bool
  response :: "'m response option"
  world :: "'x world"
  calls :: nat

text \<open>
  Lines 95 and 116: \<open>options.interrupt_signal && intr_pointer.get() != NULL\<close>, the test
  by which the function sees that its interruption is requested.
\<close>

definition interrupt_requested :: "Options \<Rightarrow> 'x world \<Rightarrow> bool" where
  "interrupt_requested options w \<longleftrightarrow> interrupt_signal options \<noteq> 0 \<and> intr_pointer w"

text \<open>Lines 100-102: \<open>std::max(int64_t(0), options.retry_delay_s - (time(NULL) - request_sent))\<close>.\<close>

definition delay_time_left :: "Options \<Rightarrow> int \<Rightarrow> 'x world \<Rightarrow> int" where
  "delay_time_left options request_sent w =
     max 0 (retry_delay_s options - (now w - request_sent))"

text \<open>
  Lines 94-107, the \<open>do ... while (delay_time_left > 0)\<close> loop. The result is the new
  value of \<open>interrupted\<close> and the world; \<open>None\<close> is a wait that never ends.
\<close>

partial_function (option) delay_loop ::
  "('x world \<Rightarrow> 'x world) \<Rightarrow> Options \<Rightarrow> int \<Rightarrow> bool \<Rightarrow> 'x world \<Rightarrow> (bool \<times> 'x world) option"
where
  "delay_loop sleep options request_sent intr w =
     (if interrupt_requested options w then Some (True, w)
      else if delay_time_left options request_sent w > 0
           then delay_loop sleep options request_sent intr (sleep w)
           else Some (intr, w))"

datatype 'a control = Continue 'a | Break 'a

text \<open>Line 78-80: the condition under which a failed attempt is retried.\<close>

definition retry_allowed :: "32 word \<Rightarrow> bool \<Rightarrow> ErrorResponse \<Rightarrow> 32 word \<Rightarrow> bool" where
  "retry_allowed max_tries delay_last_attempt e att \<longleftrightarrow>
     error_type e = IO_ERROR
     \<and> (att <s max_tries \<or> max_tries = 0 \<or> (att = max_tries \<and> delay_last_attempt))"

text \<open>Lines 115-134: the interruption check after the attempt, and the exit on success.\<close>

definition after_attempt :: "Options \<Rightarrow> ('m, 'x) locals \<Rightarrow> ('m, 'x) locals control" where
  "after_attempt options s =
     (if interrupt_requested options (world s)
      then Break (s\<lparr>world := (world s)\<lparr>intr_pointer := False\<rparr>, response := None\<rparr>)
      else (case response s of
              Some r \<Rightarrow> if \<not> HasFailed r then Break s else Continue s
            | None \<Rightarrow> Continue s))"

text \<open>Lines 67-134: one pass through the body of the \<open>while\<close> loop.\<close>

definition loop_body ::
  "('x world \<Rightarrow> 'm response \<times> 'x world) \<Rightarrow> ('x world \<Rightarrow> 'x world) \<Rightarrow> 32 word \<Rightarrow> Options \<Rightarrow> bool
     \<Rightarrow> ('m, 'x) locals \<Rightarrow> ('m, 'x) locals control option"
where
  "loop_body sync_function sleep max_tries options delay_last_attempt s =
     (let request_sent = now (world s);
          (r, w1) = sync_function (world s);
          s1 = s\<lparr>response := Some r, world := w1, calls := calls s + 1\<rparr>
      in case r of
           Failed e \<Rightarrow>
             if retry_allowed max_tries delay_last_attempt e (attempt s)
             then (case delay_loop sleep options request_sent (interrupted s1) w1 of
                     None \<Rightarrow> None
                   | Some (i, w2) \<Rightarrow>
                       Some (after_attempt options (s1\<lparr>interrupted := i, world := w2\<rparr>)))
             else Some (Break s1)
         | Succeeded m \<Rightarrow> Some (after_attempt options s1))"

text \<open>Line 66: \<open>(++attempt <= max_tries || max_tries == 0) && !interrupted\<close>, after the increment.\<close>

definition loop_cond :: "32 word \<Rightarrow> ('m, 'x) locals \<Rightarrow> bool" where
  "loop_cond max_tries s \<longleftrightarrow> (attempt s \<le>s max_tries \<or> max_tries = 0) \<and> \<not> interrupted s"

definition incr_attempt :: "('m, 'x) locals \<Rightarrow> ('m, 'x) locals" where
  "incr_attempt s = s\<lparr>attempt := attempt s + 1\<rparr>"

text \<open>Lines 66-135, the \<open>while\<close> loop; the result is the state in which it is left.\<close>

partial_function (option) retry_loop ::
  "('x world \<Rightarrow> 'm response \<times> 'x world) \<Rightarrow> ('x world \<Rightarrow> 'x world) \<Rightarrow> 32 word \<Rightarrow> Options \<Rightarrow> bool
     \<Rightarrow> ('m, 'x) locals \<Rightarrow> ('m, 'x) locals option"
where
  "retry_loop sync_function sleep max_tries options delay_last_attempt s =
     (if loop_cond max_tries (incr_attempt s)
      then (case loop_body sync_function sleep max_tries options delay_last_attempt (incr_attempt s) of
              None \<Rightarrow> None
            | Some (Break s') \<Rightarrow> Some s'
            | Some (Continue s') \<Rightarrow>
                retry_loop sync_function sleep max_tries options delay_last_attempt s')
      else Some (incr_attempt s))"

subsection \<open>The exception for a failed response\<close>

text \<open>
  Lines 149-236: the severity, the text written to the log and to the error log, and
  the exception thrown.
\<close>

definition posix_errno_string :: "pbrpc \<Rightarrow> int \<Rightarrow> string" where
  "posix_errno_string pb n =
     (case POSIXErrno_name pb n of Some name \<Rightarrow> name | None \<Rightarrow> string_of_int n)"

definition error_type_name :: "pbrpc \<Rightarrow> int \<Rightarrow> string" where
  "error_type_name pb n =
     (case ErrorType_name pb n of Some name \<Rightarrow> name | None \<Rightarrow> string_of_int n)"

fun throw_error :: "pbrpc \<Rightarrow> ErrorResponse \<Rightarrow> LogLevel \<times> string \<times> XtreemFSException" where
  "throw_error pb e =
     (let error_message = error_message e;
          posix_errno = posix_errno e;
          redirect_to_server_uuid =
            (case redirect_to_server_uuid e of Some u \<Rightarrow> u | None \<Rightarrow> '''')
      in case error_type e of
           ERRNO \<Rightarrow>
             (let level = (if posix_errno = POSIX_ERROR_ENOENT pb then LEVEL_DEBUG else LEVEL_INFO);
                  error = ''The server denied the requested operation. Error Value: ''
                            @ posix_errno_string pb posix_errno @ '' Error message: '' @ error_message
              in (level, error, PosixErrorException posix_errno error))
         | IO_ERROR \<Rightarrow>
             (LEVEL_ERROR, ''The client encountered a communication error: '' @ error_message,
              IOException error_message)
         | INTERNAL_SERVER_ERROR \<Rightarrow>
             (LEVEL_ERROR, ''The server returned an internal server error: '' @ error_message,
              InternalServerErrorException error_message)
         | REDIRECT \<Rightarrow>
             (LEVEL_INFO,
              ''The server redirected to the current master with UUID: '' @ redirect_to_server_uuid,
              ReplicationRedirectionException redirect_to_server_uuid)
         | OTHER n \<Rightarrow>
             (let error = ''The server returned an error: '' @ error_type_name pb n
                            @ '' Error Message: '' @ error_message
              in (LEVEL_ERROR, error, XtreemFSException error)))"

definition thrown_exception :: "pbrpc \<Rightarrow> ErrorResponse \<Rightarrow> XtreemFSException" where
  "thrown_exception pb e = snd (snd (throw_error pb e))"

subsection \<open>\<open>ExecuteSyncRequest\<close>\<close>

text \<open>
  What a call leaves behind: the response returned or the exception thrown, the text
  appended to the error log, the world, and two ghost fields: the number of attempts
  made and the response with which the loop was left.
\<close>

record ('m, 'x) result =
  outcome :: "XtreemFSException + 'm"
  logged :: "(LogLevel \<times> string) option"
  final_world :: "'x world"
  attempts :: nat
  last_response :: "'m response option"

text \<open>Lines 142-240: return the response or throw.\<close>

definition conclude :: "pbrpc \<Rightarrow> 'm response option \<Rightarrow> (XtreemFSException + 'm) \<times> (LogLevel \<times> string) option" where
  "conclude pb resp =
     (case resp of
        Some (Succeeded m) \<Rightarrow> (Inr m, None)
      | Some (Failed e) \<Rightarrow>
          (Inl (thrown_exception pb e), Some (fst (throw_error pb e), fst (snd (throw_error pb e))))
      | None \<Rightarrow> (Inl (PosixErrorException EINTR ''The operation was aborted by the user.''), None))"

text \<open>Lines 53-60: the flag is cleared and the handler registered, if a signal is set.\<close>

definition register_handler :: "Options \<Rightarrow> 'x world \<Rightarrow> sighandler \<times> 'x world" where
  "register_handler options w =
     (if interrupt_signal options \<noteq> 0
      then signal (interrupt_signal options) InterruptSyncRequest (w\<lparr>intr_pointer := False\<rparr>)
      else (SIG_IGN, w))"

text \<open>Lines 62-64: the locals before the loop.\<close>

definition initial_locals :: "'x world \<Rightarrow> ('m, 'x) locals" where
  "initial_locals w = \<lparr>attempt = 0, interrupted = False, response = None, world = w, calls = 0\<rparr>"

text \<open>Lines 136-240: the handler is restored, then the response returned or the exception thrown.\<close>

definition leave :: "pbrpc \<Rightarrow> Options \<Rightarrow> sighandler \<Rightarrow> ('m, 'x) locals \<Rightarrow> ('m, 'x) result" where
  "leave pb options previous_signal_handler s =
     (let w = (if interrupt_signal options \<noteq> 0
               then snd (signal (interrupt_signal options) previous_signal_handler (world s))
               else world s)
      in \<lparr>outcome = fst (conclude pb (response s)), logged = snd (conclude pb (response s)),
          final_world = w, attempts = calls s, last_response = response s\<rparr>)"

definition ExecuteSyncRequest ::
  "pbrpc \<Rightarrow> ('x world \<Rightarrow> 'x world) \<Rightarrow> ('x world \<Rightarrow> 'm response \<times> 'x world) \<Rightarrow> 32 word \<Rightarrow> Options \<Rightarrow> bool
     \<Rightarrow> 'x world \<Rightarrow> ('m, 'x) result option"
where
  "ExecuteSyncRequest pb sleep sync_function max_tries options delay_last_attempt w =
     (case register_handler options w of (previous_signal_handler, w') \<Rightarrow>
        map_option (leave pb options previous_signal_handler)
          (retry_loop sync_function sleep max_tries options delay_last_attempt (initial_locals w')))"

text \<open>
  One pass through the loop that ends at the bottom of the body and goes back to the
  loop condition: from the locals \<open>s\<close> at the condition to the locals \<open>s'\<close> at the
  condition the next time. \<open>(continues \<dots> ^^ n) s0 s\<close> is a run of \<open>n\<close> such passes.
\<close>

definition continues ::
  "('x world \<Rightarrow> 'm response \<times> 'x world) \<Rightarrow> ('x world \<Rightarrow> 'x world) \<Rightarrow> 32 word \<Rightarrow> Options \<Rightarrow> bool
     \<Rightarrow> ('m, 'x) locals \<Rightarrow> ('m, 'x) locals \<Rightarrow> bool"
where
  "continues sync_function sleep max_tries options delay_last_attempt s s' \<longleftrightarrow>
     loop_cond max_tries (incr_attempt s)
     \<and> loop_body sync_function sleep max_tries options delay_last_attempt (incr_attempt s)
         = Some (Continue s')"

subsection \<open>An environment to run the function in\<close>

text \<open>
  Attempts answer from a script held in \<open>ext\<close>; \<open>scripted_attempt\<close> takes no time
  and \<open>slow_attempt\<close> takes a second. A sleep moves the clock by one second, and
  \<open>interrupting_sleep\<close> is a sleep during which the signal arrives.
\<close>

definition example_pb :: pbrpc where
  "example_pb =
     \<lparr>POSIX_ERROR_ENOENT = 2,
      POSIXErrno_name = (\<lambda>n. if n = 2 then Some ''POSIX_ERROR_ENOENT''
                            else if n = 13 then Some ''POSIX_ERROR_EACCES'' else None),
      ErrorType_name = (\<lambda>n. if n = 4 then Some ''AUTH_FAILED'' else None)\<rparr>"

definition example_options :: Options where
  "example_options = \<lparr>interrupt_signal = 10, retry_delay_s = 2\<rparr>"

definition example_world :: "'x \<Rightarrow> 'x world" where
  "example_world x = \<lparr>now = 1000, intr_pointer = False, signal_handlers = (\<lambda>n. SIG_DFL), ext = x\<rparr>"

definition scripted_attempt :: "nat response list world \<Rightarrow> nat response \<times> nat response list world" where
  "scripted_attempt w = (case ext w of [] \<Rightarrow> (Succeeded 0, w) | r # rs \<Rightarrow> (r, w\<lparr>ext := rs\<rparr>))"

definition slow_attempt :: "nat response list world \<Rightarrow> nat response \<times> nat response list world" where
  "slow_attempt w = (case scripted_attempt w of (r, w') \<Rightarrow> (r, w'\<lparr>now := now w' + 1\<rparr>))"

definition ticking_sleep :: "'x world \<Rightarrow> 'x world" where
  "ticking_sleep w = w\<lparr>now := now w + 1\<rparr>"

definition interrupting_sleep :: "'x world \<Rightarrow> 'x world" where
  "interrupting_sleep w = w\<lparr>now := now w + 1, intr_pointer := True\<rparr>"

definition io_failure :: "nat response" where
  "io_failure = Failed \<lparr>error_type = IO_ERROR, error_message = ''connection reset'',
                        posix_errno = 0, redirect_to_server_uuid = None\<rparr>"

definition access_denied :: "nat response" where
  "access_denied = Failed \<lparr>error_type = ERRNO, error_message = ''access denied'',
                           posix_errno = 13, redirect_to_server_uuid = None\<rparr>"

section \<open>The directory service proxy (dir_proxy.cpp)\<close>

subsection \<open>Data\<close>

text \<open>
  Modelled from the spec: the interface types \<open>AddressMapping\<close> and \<open>Service\<close>
  (org/xtreemfs/interfaces) and the class \<open>CachedAddressMappingURI\<close> (dir_proxy.h) are
  not among the sources. The fields are those the spec lists; the accessors that
  dir_proxy.cpp calls keep their names. A service's data map is the list of its
  entries in the order in which the iterator visits them. The clock of
  \<open>YIELD::Time::getCurrentUnixTimeS\<close> is a \<open>double\<close>; times and ages are real numbers
  here.
\<close>

record AddressMapping =
  get_uuid :: string
  get_protocol :: string
  get_address :: string
  get_port :: nat
  get_ttl_s :: nat

record Service =
  get_service_uuid :: string
  get_data :: "(string \<times> string) list"

record CachedAddressMappingURI =
  uri :: string
  ttl_s :: nat
  creation_epoch_time_s :: real

text \<open>
  Modelled from the spec: the constructor \<open>CachedAddressMappingURI(uri, ttl_s)\<close> of
  dir_proxy.h. The spec has a cached endpoint constructed with \<open>creation_time = now\<close>
  and \<open>ttl_s\<close> from the mapping; \<open>current_time\<close> is the clock when the constructor runs.
\<close>

definition new_CachedAddressMappingURI :: "string \<Rightarrow> nat \<Rightarrow> real \<Rightarrow> CachedAddressMappingURI" where
  "new_CachedAddressMappingURI uri_str ttl current_time =
     \<lparr>uri = uri_str, ttl_s = ttl, creation_epoch_time_s = current_time\<rparr>"

datatype YIELD_Exception = Exception string

text \<open>
  The proxy: its cache, and a ghost list of the UUIDs for which
  \<open>xtreemfs_address_mappings_get\<close> was sent to the directory service, oldest first.
\<close>

record DIRProxy =
  uuid_to_uri_cache :: "string \<rightharpoonup> CachedAddressMappingURI"
  address_mappings_requests :: "string list"

text \<open>
  What one call meets outside the proxy: the answers of the directory service, whether
  \<open>try_acquire\<close> gets the lock of the cache, the clock when the age of an entry is
  computed (line 40) and the clock when a new entry is constructed (line 64).
\<close>

record dir_world =
  xtreemfs_address_mappings_get :: "string \<Rightarrow> AddressMapping list"
  xtreemfs_service_get_by_name :: "string \<Rightarrow> Service list"
  try_acquire :: bool
  getCurrentUnixTimeS :: real
  construction_time :: real

subsection \<open>\<open>getURIFromUUID\<close>\<close>

text \<open>
  Lines 34-55: the look into the cache. The result is the entry to return, if there is
  one, and the proxy with a stale entry erased.
\<close>

definition cache_lookup :: "dir_world \<Rightarrow> string \<Rightarrow> DIRProxy \<Rightarrow> CachedAddressMappingURI option \<times> DIRProxy" where
  "cache_lookup env uuid p =
     (if try_acquire env
      then (case uuid_to_uri_cache p uuid of
              Some cached \<Rightarrow>
                (let uri_age_s = getCurrentUnixTimeS env - creation_epoch_time_s cached
                 in if uri_age_s < real (ttl_s cached)
                    then (Some cached, p)
                    else (None, p\<lparr>uuid_to_uri_cache := (uuid_to_uri_cache p)(uuid := None)\<rparr>))
            | None \<Rightarrow> (None, p))
      else (None, p))"

text \<open>Lines 62-63: the URI written to the string stream, \<open>protocol://address:port\<close>.\<close>

definition uri_str_of :: "AddressMapping \<Rightarrow> string" where
  "uri_str_of address_mapping =
     get_protocol address_mapping @ ''://'' @ get_address address_mapping
       @ '':'' @ string_of_nat (get_port address_mapping)"

text \<open>Lines 57-71: the query to the directory service and the new entry.\<close>

definition query_directory :: "dir_world \<Rightarrow> string \<Rightarrow> DIRProxy \<Rightarrow> (YIELD_Exception + string) \<times> DIRProxy" where
  "query_directory env uuid p =
     (let address_mappings = xtreemfs_address_mappings_get env uuid;
          p1 = p\<lparr>address_mappings_requests := address_mappings_requests p @ [uuid]\<rparr>
      in case address_mappings of
           address_mapping # others \<Rightarrow>
             (let uri_str = uri_str_of address_mapping;
                  cached = new_CachedAddressMappingURI uri_str (get_ttl_s address_mapping)
                             (construction_time env)
              in (Inr (uri cached), p1\<lparr>uuid_to_uri_cache := (uuid_to_uri_cache p1)(uuid \<mapsto> cached)\<rparr>))
         | [] \<Rightarrow> (Inl (Exception ''could not find address mapping for UUID''), p1))"

definition getURIFromUUID :: "dir_world \<Rightarrow> string \<Rightarrow> DIRProxy \<Rightarrow> (YIELD_Exception + string) \<times> DIRProxy" where
  "getURIFromUUID env uuid p =
     (case cache_lookup env uuid p of
        (Some cached, p') \<Rightarrow> (Inr (uri cached), p')
      | (None, p') \<Rightarrow> query_directory env uuid p')"

subsection \<open>\<open>getVolumeURIFromVolumeName\<close>\<close>

text \<open>
  Lines 83-87 and 80-88: the two \<open>for\<close> loops. \<open>None\<close> is a loop that ran to its end;
  \<open>Some r\<close> is the \<open>return\<close> at line 86.
\<close>

fun scan_data :: "dir_world \<Rightarrow> DIRProxy \<Rightarrow> (string \<times> string) list
    \<Rightarrow> ((YIELD_Exception + string) \<times> DIRProxy) option" where
  "scan_data env p [] = None"
| "scan_data env p (service_data # rest) =
     (if fst service_data = ''mrc'' then Some (getURIFromUUID env (snd service_data) p)
      else scan_data env p rest)"

fun scan_services :: "dir_world \<Rightarrow> DIRProxy \<Rightarrow> Service list
    \<Rightarrow> ((YIELD_Exception + string) \<times> DIRProxy) option" where
  "scan_services env p [] = None"
| "scan_services env p (service # rest) =
     (case scan_data env p (get_data service) of
        Some r \<Rightarrow> Some r
      | None \<Rightarrow> scan_services env p rest)"

definition getVolumeURIFromVolumeName :: "dir_world \<Rightarrow> string \<Rightarrow> DIRProxy \<Rightarrow> (YIELD_Exception + string) \<times> DIRProxy" where
  "getVolumeURIFromVolumeName env volume_name p =
     (let services = xtreemfs_service_get_by_name env volume_name
      in if services \<noteq> []
         then (case scan_services env p services of
                 Some r \<Rightarrow> r
               | None \<Rightarrow> (Inl (Exception ''unknown volume''), p))
         else (Inl (Exception ''unknown volume''), p))"

text \<open>
  The spec's words for the choice, to compare the loops with: the services in the
  order returned, the role entries of each in order, the UUID under the first entry
  named \<open>mrc\<close>.
\<close>

definition spec_first_mrc :: "Service list \<Rightarrow> string option" where
  "spec_first_mrc services =
     map_option snd (find (\<lambda>entry. fst entry = ''mrc'') (concat (map get_data services)))"

subsection \<open>A directory to resolve against\<close>

definition srv1_mapping :: AddressMapping where
  "srv1_mapping = \<lparr>get_uuid = ''srv1'', get_protocol = ''tcp'', get_address = ''10.0.0.5'',
                    get_port = 14, get_ttl_s = 60\<rparr>"

definition example_dir :: "bool \<Rightarrow> real \<Rightarrow> dir_world" where
  "example_dir lock t =
     \<lparr>xtreemfs_address_mappings_get = (\<lambda>uuid. if uuid = ''srv1'' then [srv1_mapping] else []),
      xtreemfs_service_get_by_name =
        (\<lambda>name. if name = ''vol1''
                 then [\<lparr>get_service_uuid = ''v0'', get_data = [(''free'', ''12'')]\<rparr>,
                       \<lparr>get_service_uuid = ''v1'', get_data = [(''dir'', ''srv0''), (''mrc'', ''srv1'')]\<rparr>,
                       \<lparr>get_service_uuid = ''v2'', get_data = [(''mrc'', ''srv2'')]\<rparr>]
                 else if name = ''vol2''
                 then [\<lparr>get_service_uuid = ''v3'', get_data = [(''free'', ''7'')]\<rparr>]
                 else []),
      try_acquire = lock,
      getCurrentUnixTimeS = t,
      construction_time = t\<rparr>"

definition empty_proxy :: DIRProxy where
  "empty_proxy = \<lparr>uuid_to_uri_cache = Map.empty, address_mappings_requests = []\<rparr>"

definition stale_proxy :: DIRProxy where
  "stale_proxy =
     \<lparr>uuid_to_uri_cache = [''gone'' \<mapsto> \<lparr>uri = ''tcp://10.0.0.9:32636'', ttl_s = 60, creation_epoch_time_s = 0\<rparr>],
      address_mappings_requests = []\<rparr>"

section \<open>Properties of the retry engine\<close>

subsection \<open>The wait between two attempts\<close>

lemma delay_loop_result:
  assumes "delay_loop sleep options request_sent intr w = Some y"
  shows "if interrupt_requested options (snd y) then fst y = True
         else fst y = intr \<and> delay_time_left options request_sent (snd y) = 0"
proof (rule delay_loop.raw_induct [where P = "\<lambda>sleep options request_sent intr w y.
        (if interrupt_requested options (snd y) then fst y = True
         else fst y = intr \<and> delay_time_left options request_sent (snd y) = 0)", OF _ assms], goal_cases)
  case (1 f sl opt rs i v z)
  show ?case
  proof (cases "interrupt_requested opt v")
    case True
    with 1(2) show ?thesis by auto
  next
    case False
    show ?thesis
    proof (cases "0 < delay_time_left opt rs v")
      case True
      with False 1(2) have "f sl opt rs i (sl v) = Some z" by auto
      from 1(1) [OF this] show ?thesis .
    next
      case no_wait: False
      with False 1(2) show ?thesis by (auto simp: delay_time_left_def)
    qed
  qed
qed

lemma delay_loop_unfold:
  "(\<And>j. j < k \<Longrightarrow> \<not> (interrupt_requested options ((sleep ^^ j) w))
            \<and> 0 < delay_time_left options request_sent ((sleep ^^ j) w)) \<Longrightarrow>
   delay_loop sleep options request_sent intr w
     = delay_loop sleep options request_sent intr ((sleep ^^ k) w)"
proof (induction k arbitrary: w)
  case 0
  then show ?case by simp
next
  case (Suc k)
  have "delay_loop sleep options request_sent intr w
          = delay_loop sleep options request_sent intr (sleep w)"
    using Suc.prems [of 0] by (subst delay_loop.simps) auto
  also have "\<dots> = delay_loop sleep options request_sent intr ((sleep ^^ k) (sleep w))"
  proof (rule Suc.IH)
    fix j assume "j < k"
    then show "\<not> (interrupt_requested options ((sleep ^^ j) (sleep w)))
            \<and> 0 < delay_time_left options request_sent ((sleep ^^ j) (sleep w))"
      using Suc.prems [of "Suc j"] by (simp add: funpow_swap1)
  qed
  finally show ?case by (simp add: funpow_swap1)
qed

lemma delay_loop_interrupted:
  assumes "\<And>j. j < k \<Longrightarrow> \<not> interrupt_requested options ((sleep ^^ j) w)
                 \<and> 0 < delay_time_left options request_sent ((sleep ^^ j) w)"
    and "interrupt_requested options ((sleep ^^ k) w)"
  shows "delay_loop sleep options request_sent intr w = Some (True, (sleep ^^ k) w)"
proof -
  have "delay_loop sleep options request_sent intr w
          = delay_loop sleep options request_sent intr ((sleep ^^ k) w)"
    using assms(1) by (intro delay_loop_unfold) simp
  also have "\<dots> = Some (True, (sleep ^^ k) w)"
    using assms(2) by (subst delay_loop.simps) simp
  finally show ?thesis .
qed

lemma delay_loop_elapsed:
  assumes "\<not> (interrupt_requested options w)"
    and "delay_time_left options request_sent w = 0"
  shows "delay_loop sleep options request_sent intr w = Some (intr, w)"
  using assms by (subst delay_loop.simps) auto

lemma delay_loop_ticks:
  assumes "delay_loop sleep options request_sent intr w = Some y"
    and "\<And>v. now (sleep v) = now v \<or> now (sleep v) = now v + 1"
    and "\<not> (interrupt_requested options (snd y))"
  shows "now (snd y) - now w = delay_time_left options request_sent w"
proof -
  have "(\<forall>v. now (sleep v) = now v \<or> now (sleep v) = now v + 1) \<longrightarrow>
        \<not> (interrupt_requested options (snd y)) \<longrightarrow>
        now (snd y) - now w = delay_time_left options request_sent w"
  proof (rule delay_loop.raw_induct [where P = "\<lambda>sleep options request_sent intr w y.
        (\<forall>v. now (sleep v) = now v \<or> now (sleep v) = now v + 1) \<longrightarrow>
        \<not> (interrupt_requested options (snd y)) \<longrightarrow>
        now (snd y) - now w = delay_time_left options request_sent w", OF _ assms(1)], goal_cases)
    case (1 f sl opt rs i v z)
    show ?case
    proof (intro impI)
      assume ticks: "\<forall>v. now (sl v) = now v \<or> now (sl v) = now v + 1"
        and quiet: "\<not> (interrupt_requested opt (snd z))"
      show "now (snd z) - now v = delay_time_left opt rs v"
      proof (cases "interrupt_requested opt v")
        case True
        with 1(2) quiet show ?thesis by auto
      next
        case False
        show ?thesis
        proof (cases "0 < delay_time_left opt rs v")
          case True
          with False 1(2) have "f sl opt rs i (sl v) = Some z" by auto
          from 1(1) [OF this] ticks quiet
          have "now (snd z) - now (sl v) = delay_time_left opt rs (sl v)" by blast
          moreover from ticks have "now (sl v) = now v \<or> now (sl v) = now v + 1" by blast
          ultimately show ?thesis using True by (auto simp: delay_time_left_def)
        next
          case no_wait: False
          with False 1(2) show ?thesis by (auto simp: delay_time_left_def)
        qed
      qed
    qed
  qed
  with assms(2,3) show ?thesis by blast
qed

lemma delay_loop_sleeps:
  assumes "delay_loop sleep options request_sent intr w = Some y"
  shows "\<exists>k. snd y = (sleep ^^ k) w"
proof (rule delay_loop.raw_induct [where P = "\<lambda>sleep options request_sent intr w y.
          \<exists>k. snd y = (sleep ^^ k) w", OF _ assms], goal_cases)
  case (1 f sl opt rs i v z)
  show ?case
  proof (cases "interrupt_requested opt v")
    case True
    with 1(2) have "snd z = (sl ^^ 0) v" by auto
    then show ?thesis by blast
  next
    case False
    show ?thesis
    proof (cases "0 < delay_time_left opt rs v")
      case True
      with False 1(2) have "f sl opt rs i (sl v) = Some z" by auto
      from 1(1) [OF this] obtain k where "snd z = (sl ^^ k) (sl v)" by blast
      then have "snd z = (sl ^^ Suc k) v" by (simp add: funpow_swap1)
      then show ?thesis by blast
    next
      case over: False
      with False 1(2) have "snd z = (sl ^^ 0) v" by auto
      then show ?thesis by blast
    qed
  qed
qed

subsection \<open>Steps of the retry loop\<close>

lemma retry_loop_exit:
  "\<not> loop_cond mt (incr_attempt s) \<Longrightarrow> retry_loop sf sl mt opt dla s = Some (incr_attempt s)"
  by (subst retry_loop.simps) simp

lemma retry_loop_break:
  "loop_cond mt (incr_attempt s) \<Longrightarrow> loop_body sf sl mt opt dla (incr_attempt s) = Some (Break s')
     \<Longrightarrow> retry_loop sf sl mt opt dla s = Some s'"
  by (subst retry_loop.simps) simp

lemma retry_loop_hang:
  "loop_cond mt (incr_attempt s) \<Longrightarrow> loop_body sf sl mt opt dla (incr_attempt s) = None
     \<Longrightarrow> retry_loop sf sl mt opt dla s = None"
  by (subst retry_loop.simps) simp

lemma retry_loop_continue:
  "continues sf sl mt opt dla s s' \<Longrightarrow> retry_loop sf sl mt opt dla s = retry_loop sf sl mt opt dla s'"
  unfolding continues_def by (subst retry_loop.simps) simp

lemma retry_loop_relpow:
  "(continues sf sl mt opt dla ^^ n) s s' \<Longrightarrow> retry_loop sf sl mt opt dla s = retry_loop sf sl mt opt dla s'"
proof (induction n arbitrary: s')
  case 0
  then show ?case by simp
next
  case (Suc n)
  then obtain t where "(continues sf sl mt opt dla ^^ n) s t" and "continues sf sl mt opt dla t s'"
    by auto
  with Suc.IH show ?case by (simp add: retry_loop_continue)
qed

lemma loop_body_None:
  "loop_body sf sl mt opt dla s = None \<longleftrightarrow>
     (\<exists>e w1. sf (world s) = (Failed e, w1) \<and> retry_allowed mt dla e (attempt s)
             \<and> delay_loop sl opt (now (world s)) (interrupted s) w1 = None)"
  by (auto simp: loop_body_def Let_def split: prod.splits response.splits option.splits)

lemma loop_body_calls:
  "loop_body sf sl mt opt dla s = Some (Break s') \<Longrightarrow> calls s' = calls s + 1"
  "loop_body sf sl mt opt dla s = Some (Continue s') \<Longrightarrow> calls s' = calls s + 1"
  by (auto simp: loop_body_def after_attempt_def Let_def
        split: prod.splits response.splits option.splits if_splits)

lemma loop_body_once:
  assumes body: "loop_body sf sl mt opt dla s = Some c"
    and c: "c = Break t \<or> c = Continue t"
  shows "\<exists>resp w1 k. sf (world s) = (resp, w1)
           \<and> (response t = Some resp \<and> world t = (sl ^^ k) w1
              \<or> response t = None \<and> interrupt_requested opt ((sl ^^ k) w1)
                  \<and> world t = ((sl ^^ k) w1)\<lparr>intr_pointer := False\<rparr>)"
proof -
  obtain resp w1 where sf: "sf (world s) = (resp, w1)"
    by (cases "sf (world s)")
  let ?s1 = "s\<lparr>response := Some resp, world := w1, calls := calls s + 1\<rparr>"
  have after: "response t = Some resp \<and> world t = v
              \<or> response t = None \<and> interrupt_requested opt v \<and> world t = v\<lparr>intr_pointer := False\<rparr>"
    if "c = after_attempt opt u" and "response u = Some resp" and "world u = v" for u v
    using that c by (auto simp: after_attempt_def split: if_splits)
  have "\<exists>k. response t = Some resp \<and> world t = (sl ^^ k) w1
              \<or> response t = None \<and> interrupt_requested opt ((sl ^^ k) w1)
                  \<and> world t = ((sl ^^ k) w1)\<lparr>intr_pointer := False\<rparr>"
  proof (cases resp)
    case (Succeeded m)
    with body sf have "c = after_attempt opt ?s1"
      by (simp add: loop_body_def)
    from after [OF this, of w1] show ?thesis
      by (intro exI [of _ 0]) simp
  next
    case (Failed e)
    show ?thesis
    proof (cases "retry_allowed mt dla e (attempt s)")
      case False
      with body sf Failed have "c = Break ?s1"
        by (simp add: loop_body_def)
      with c show ?thesis
        by (intro exI [of _ 0]) auto
    next
      case True
      with body sf Failed obtain i w2
        where wait: "delay_loop sl opt (now (world s)) (interrupted s) w1 = Some (i, w2)"
          and "c = after_attempt opt (?s1\<lparr>interrupted := i, world := w2\<rparr>)"
        by (auto simp: loop_body_def split: option.splits)
      moreover from delay_loop_sleeps [OF wait] obtain k where "w2 = (sl ^^ k) w1"
        by auto
      ultimately show ?thesis
        using after [of "?s1\<lparr>interrupted := i, world := w2\<rparr>" w2] by (intro exI [of _ k]) simp
    qed
  qed
  with sf show ?thesis by blast
qed

lemma continues_facts:
  assumes "continues sf sl mt opt dla s s'"
  shows "calls s' = calls s + 1" and "\<not> interrupted s'" and "attempt s' = attempt s + 1"
    and "\<exists>e w1. sf (world s) = (Failed e, w1) \<and> retry_allowed mt dla e (attempt s + 1)
           \<and> delay_loop sl opt (now (world s)) False w1 = Some (False, world s')
           \<and> response s' = Some (Failed e)"
    and "\<not> (interrupt_requested opt (world s'))"
  using assms
  unfolding continues_def loop_body_def loop_cond_def incr_attempt_def after_attempt_def
  by (auto simp: Let_def split: prod.splits response.splits option.splits if_splits
        dest!: delay_loop_result)

lemma relpow_calls:
  "(continues sf sl mt opt dla ^^ n) s s' \<Longrightarrow> calls s' = calls s + n"
proof (induction n arbitrary: s')
  case 0
  then show ?case by simp
next
  case (Suc n)
  then obtain t where "(continues sf sl mt opt dla ^^ n) s t" and "continues sf sl mt opt dla t s'"
    by auto
  with Suc.IH show ?case by (simp add: continues_facts(1))
qed

lemma relpow_not_interrupted:
  "(continues sf sl mt opt dla ^^ n) s s' \<Longrightarrow> \<not> interrupted s \<Longrightarrow> \<not> interrupted s'"
  by (cases n) (auto simp: continues_facts(2))

lemma initial_locals_fields:
  "calls (initial_locals w) = 0" "\<not> interrupted (initial_locals w)"
  "attempt (initial_locals w) = 0" "response (initial_locals w) = None"
  "world (initial_locals w) = w"
  by (simp_all add: initial_locals_def)

lemma ExecuteSyncRequest_unfold:
  "ExecuteSyncRequest pb sl sf mt opt dla w =
     map_option (leave pb opt (fst (register_handler opt w)))
       (retry_loop sf sl mt opt dla (initial_locals (snd (register_handler opt w))))"
  by (simp add: ExecuteSyncRequest_def case_prod_unfold)

lemma leave_fields:
  "attempts (leave pb opt h s) = calls s"
  "last_response (leave pb opt h s) = response s"
  "outcome (leave pb opt h s) = fst (conclude pb (response s))"
  by (simp_all add: leave_def Let_def)

lemma loop_body_non_io:
  "sf (world s) = (Failed e, w') \<Longrightarrow> error_type e \<noteq> IO_ERROR \<Longrightarrow>
   loop_body sf sl mt opt dla s
     = Some (Break (s\<lparr>response := Some (Failed e), world := w', calls := calls s + 1\<rparr>))"
  by (simp add: loop_body_def retry_allowed_def)

lemma continues_intro:
  assumes "loop_cond mt (incr_attempt s)"
    and "sf (world s) = (Failed e, w1)"
    and "retry_allowed mt dla e (attempt s + 1)"
    and "delay_loop sl opt (now (world s)) False w1 = Some (False, w2)"
  shows "continues sf sl mt opt dla s
           (s\<lparr>attempt := attempt s + 1, response := Some (Failed e), world := w2,
              calls := calls s + 1\<rparr>)"
proof -
  from delay_loop_result [OF assms(4)]
  have "\<not> (interrupt_requested opt w2)"
    by (auto split: if_splits)
  moreover from assms(1) have "\<not> interrupted s"
    by (simp add: loop_cond_def incr_attempt_def)
  ultimately show ?thesis
    using assms by (simp add: continues_def loop_body_def incr_attempt_def after_attempt_def)
qed

lemma retry_loop_calls:
  assumes "retry_loop sf sl mt opt dla s = Some s'"
  shows "calls s \<le> calls s' \<and> (loop_cond mt (incr_attempt s) \<longrightarrow> calls s < calls s')"
proof (rule retry_loop.raw_induct [where P = "\<lambda>sf sl mt opt dla s s'.
          calls s \<le> calls s' \<and> (loop_cond mt (incr_attempt s) \<longrightarrow> calls s < calls s')",
        OF _ assms], goal_cases)
  case (1 f sf sl mt opt dla s s')
  show ?case
  proof (cases "loop_cond mt (incr_attempt s)")
    case False
    with 1(2) have "s' = incr_attempt s" by simp
    with False show ?thesis by (simp add: incr_attempt_def)
  next
    case True
    show ?thesis
    proof (cases "loop_body sf sl mt opt dla (incr_attempt s)")
      case None
      with True 1(2) show ?thesis by simp
    next
      case (Some c)
      show ?thesis
      proof (cases c)
        case (Break t)
        with Some True 1(2) have "t = s'" by simp
        with loop_body_calls(1) [of sf sl mt opt dla "incr_attempt s" t] Some Break
        show ?thesis by (simp add: incr_attempt_def)
      next
        case (Continue t)
        with Some True 1(2) have "f sf sl mt opt dla t = Some s'" by simp
        from 1(1) [OF this] have "calls t \<le> calls s'" by simp
        moreover from loop_body_calls(2) [of sf sl mt opt dla "incr_attempt s" t] Some Continue
        have "calls t = calls s + 1" by (simp add: incr_attempt_def)
        ultimately show ?thesis by simp
      qed
    qed
  qed
qed

lemma loop_body_Break_unlimited:
  assumes "loop_body sf sl 0 opt dla s = Some (Break s')"
  shows "(\<exists>m. response s' = Some (Succeeded m))
       \<or> (\<exists>e. response s' = Some (Failed e) \<and> error_type e \<noteq> IO_ERROR)
       \<or> (response s' = None \<and> interrupt_signal opt \<noteq> 0)"
  using assms
  by (auto simp: loop_body_def after_attempt_def retry_allowed_def interrupt_requested_def Let_def
        split: prod.splits response.splits option.splits if_splits)

lemma retry_loop_unlimited_end:
  assumes "retry_loop sf sl mt opt dla s = Some s'"
  shows "mt = 0 \<longrightarrow> \<not> interrupted s \<longrightarrow>
       (\<exists>m. response s' = Some (Succeeded m))
       \<or> (\<exists>e. response s' = Some (Failed e) \<and> error_type e \<noteq> IO_ERROR)
       \<or> (response s' = None \<and> interrupt_signal opt \<noteq> 0)"
proof (rule retry_loop.raw_induct [where P = "\<lambda>sf sl mt opt dla s s'.
       mt = 0 \<longrightarrow> \<not> interrupted s \<longrightarrow>
       (\<exists>m. response s' = Some (Succeeded m))
       \<or> (\<exists>e. response s' = Some (Failed e) \<and> error_type e \<noteq> IO_ERROR)
       \<or> (response s' = None \<and> interrupt_signal opt \<noteq> 0)", OF _ assms], goal_cases)
  case (1 f sf sl mt opt dla s s')
  show ?case
  proof (intro impI)
    assume mt: "mt = 0" and quiet: "\<not> interrupted s"
    then have cond: "loop_cond mt (incr_attempt s)"
      by (simp add: loop_cond_def incr_attempt_def)
    show "(\<exists>m. response s' = Some (Succeeded m))
       \<or> (\<exists>e. response s' = Some (Failed e) \<and> error_type e \<noteq> IO_ERROR)
       \<or> (response s' = None \<and> interrupt_signal opt \<noteq> 0)"
    proof (cases "loop_body sf sl mt opt dla (incr_attempt s)")
      case None
      with cond 1(2) show ?thesis by simp
    next
      case (Some c)
      show ?thesis
      proof (cases c)
        case (Break t)
        with Some cond 1(2) have "t = s'" by simp
        with Some Break mt show ?thesis
          by (auto dest: loop_body_Break_unlimited)
      next
        case (Continue t)
        with Some cond 1(2) have run: "f sf sl mt opt dla t = Some s'" by simp
        from Some Continue cond have "continues sf sl mt opt dla s t"
          by (simp add: continues_def)
        then have "\<not> interrupted t" by (rule continues_facts(2))
        with 1(1) [OF run] mt show ?thesis by blast
      qed
    qed
  qed
qed

lemma io_failures_reach:
  fixes sync_function :: "'x world \<Rightarrow> 'm response \<times> 'x world"
  assumes "\<And>i. i < n \<Longrightarrow> sync_function (v i) = (Failed (e i), u i) \<and> error_type (e i) = IO_ERROR
                    \<and> delay_loop sleep options (now (v i)) False (u i) = Some (False, v (Suc i))"
  shows "\<exists>s. (continues sync_function sleep 0 options delay_last_attempt ^^ n) (initial_locals (v 0)) s
            \<and> world s = v n"
  using assms
proof (induction n)
  case 0
  then show ?case by (simp add: initial_locals_fields)
next
  case (Suc n)
  let ?step = "continues sync_function sleep 0 options delay_last_attempt"
  from Suc obtain s where reach: "(?step ^^ n) (initial_locals (v 0)) s" and w: "world s = v n"
    by (metis less_Suc_eq)
  have "\<not> interrupted s"
    using reach by (rule relpow_not_interrupted) (simp add: initial_locals_fields)
  then have cond: "loop_cond 0 (incr_attempt s)"
    by (simp add: loop_cond_def incr_attempt_def)
  from Suc.prems [of n]
  have sf: "sync_function (world s) = (Failed (e n), u n)" and io: "error_type (e n) = IO_ERROR"
    and wait: "delay_loop sleep options (now (world s)) False (u n) = Some (False, v (Suc n))"
    by (simp_all add: w)
  from io have retry: "retry_allowed 0 delay_last_attempt (e n) (attempt s + 1)"
    by (simp add: retry_allowed_def)
  let ?t = "s\<lparr>attempt := attempt s + 1, response := Some (Failed (e n)), world := v (Suc n),
              calls := calls s + 1\<rparr>"
  have "?step s ?t"
    using cond sf retry wait by (rule continues_intro)
  with reach have "(?step ^^ Suc n) (initial_locals (v 0)) ?t"
    by auto
  then show ?case
    by (intro exI [of _ ?t]) simp
qed

lemma io_failures_more_attempts:
  fixes sync_function :: "'x world \<Rightarrow> 'm response \<times> 'x world"
  assumes failures: "\<And>i. i < n \<Longrightarrow>
            sync_function (v i) = (Failed (e i), u i) \<and> error_type (e i) = IO_ERROR
            \<and> delay_loop sleep options (now (v i)) False (u i) = Some (False, v (Suc i))"
    and run: "retry_loop sync_function sleep 0 options delay_last_attempt (initial_locals (v 0)) = Some s'"
  shows "n < calls s'"
proof -
  let ?init = "initial_locals (v 0) :: ('m, 'x) locals"
  let ?step = "continues sync_function sleep 0 options delay_last_attempt"
  let ?loop = "retry_loop sync_function sleep 0 options delay_last_attempt"
  from io_failures_reach [of n sync_function v e u sleep options delay_last_attempt] failures
  obtain s where reach: "(?step ^^ n) ?init s"
    by auto
  have calls: "calls s = n"
    using relpow_calls [OF reach] by (simp add: initial_locals_fields)
  have "\<not> interrupted s"
    using reach by (rule relpow_not_interrupted) (simp add: initial_locals_fields)
  then have cond: "loop_cond 0 (incr_attempt s)"
    by (simp add: loop_cond_def incr_attempt_def)
  have "?loop ?init = ?loop s"
    using reach by (rule retry_loop_relpow)
  with run have "?loop s = Some s'" by simp
  from retry_loop_calls [OF this] cond calls show ?thesis by simp
qed

subsection \<open>The exception by error type\<close>


subsection \<open>Unfolding the definitions on concrete inputs\<close>

lemmas example_defs = example_pb_def example_options_def example_world_def scripted_attempt_def
  ticking_sleep_def interrupting_sleep_def io_failure_def access_denied_def

lemmas engine_defs = ExecuteSyncRequest_def register_handler_def signal_def initial_locals_def
  interrupt_requested_def
  leave_def conclude_def loop_cond_def incr_attempt_def loop_body_def retry_allowed_def
  after_attempt_def delay_time_left_def continues_def

text \<open>
  Three IO errors in a row with \<open>max_tries = 3\<close> and two seconds between attempts:
  three attempts, two waits of two seconds, and an \<open>IOException\<close>.
\<close>

lemma three_io_errors:
  "map_option (\<lambda>r. (outcome r, attempts r, now (final_world r)))
     (ExecuteSyncRequest example_pb ticking_sleep scripted_attempt 3 example_options False
        (example_world [io_failure, io_failure, io_failure]))
   = Some (Inl (IOException ''connection reset''), 3, 1004)"
  by (simp add: example_defs engine_defs retry_loop.simps delay_loop.simps word_sle_eq
        word_sless_alt Let_def thrown_exception_def)

section \<open>Properties of the directory service proxy\<close>

lemmas dir_defs = getURIFromUUID_def cache_lookup_def query_directory_def
  new_CachedAddressMappingURI_def uri_str_of_def Let_def

lemmas example_dir_defs = example_dir_def srv1_mapping_def empty_proxy_def stale_proxy_def

text \<open>
  A mapping with a time to live of 60 seconds, resolved at time 100: a second call 30
  seconds later answers from the cache, a call 61 seconds later asks again.
\<close>

lemma resolve_twice:
  "getURIFromUUID (example_dir True 100) ''srv1'' empty_proxy
     = (Inr ''tcp://10.0.0.5:14'',
        \<lparr>uuid_to_uri_cache =
           [''srv1'' \<mapsto> \<lparr>uri = ''tcp://10.0.0.5:14'', ttl_s = 60, creation_epoch_time_s = 100\<rparr>],
         address_mappings_requests = [''srv1'']\<rparr>)"
  "getURIFromUUID (example_dir True 130) ''srv1''
       (snd (getURIFromUUID (example_dir True 100) ''srv1'' empty_proxy))
     = (Inr ''tcp://10.0.0.5:14'', snd (getURIFromUUID (example_dir True 100) ''srv1'' empty_proxy))"
  "address_mappings_requests (snd (getURIFromUUID (example_dir True 161) ''srv1''
       (snd (getURIFromUUID (example_dir True 100) ''srv1'' empty_proxy))))
     = [''srv1'', ''srv1'']"
  by (simp_all add: dir_defs example_dir_defs)

lemma scan_data_find:
  "scan_data env p d =
     map_option (\<lambda>entry. getURIFromUUID env (snd entry) p) (find (\<lambda>entry. fst entry = ''mrc'') d)"
  by (induction d) auto

lemma find_append:
  "find P (xs @ ys) = (case find P xs of Some x \<Rightarrow> Some x | None \<Rightarrow> find P ys)"
  by (induction xs) auto

lemma scan_services_first:
  "scan_services env p services =
     map_option (\<lambda>uuid. getURIFromUUID env uuid p) (spec_first_mrc services)"
  by (induction services)
     (auto simp: spec_first_mrc_def scan_data_find find_append split: option.splits)

lemma spec_first_mrc_Nil: "spec_first_mrc [] = None"
  by (simp add: spec_first_mrc_def)

lemma spec_first_mrc_None:
  "spec_first_mrc services = None \<longleftrightarrow> (\<forall>service \<in> set services. ''mrc'' \<notin> fst ` set (get_data service))"
  by (force simp: spec_first_mrc_def find_None_iff)

lemma find_first:
  "\<forall>x \<in> set xs. \<not> P x \<Longrightarrow> P y \<Longrightarrow> find P (xs @ y # ys) = Some y"
  by (induction xs) auto

lemma spec_first_mrc_decompose:
  assumes "services = pre @ service # post"
    and "\<forall>s \<in> set pre. ''mrc'' \<notin> fst ` set (get_data s)"
    and "get_data service = before @ (''mrc'', uuid) # after"
    and "''mrc'' \<notin> fst ` set before"
  shows "spec_first_mrc services = Some uuid"
proof -
  have "concat (map get_data services)
          = (concat (map get_data pre) @ before) @ (''mrc'', uuid) # (after @ concat (map get_data post))"
    using assms(1,3) by simp
  moreover have "\<forall>x \<in> set (concat (map get_data pre) @ before). \<not> fst x = ''mrc''"
    using assms(2,4) by force
  ultimately have "find (\<lambda>entry. fst entry = ''mrc'') (concat (map get_data services))
          = Some (''mrc'', uuid)"
    by (simp only: find_first fst_conv)
  then show ?thesis
    by (simp add: spec_first_mrc_def)
qed

lemma getVolumeURIFromVolumeName_first_mrc:
  "getVolumeURIFromVolumeName env volume_name p =
     (case spec_first_mrc (xtreemfs_service_get_by_name env volume_name) of
        Some uuid \<Rightarrow> getURIFromUUID env uuid p
      | None \<Rightarrow> (Inl (Exception ''unknown volume''), p))"
  by (cases "xtreemfs_service_get_by_name env volume_name = []")
     (simp_all add: getVolumeURIFromVolumeName_def scan_services_first spec_first_mrc_Nil
        split: option.splits)

section \<open>The claims about the retry engine\<close>

text \<open>
  C1. Whatever the attempt function and the options: when an attempt is made, after
  any number \<open>n\<close> of attempts that were retried, and its response has failed with an
  error type other than \<open>IO_ERROR\<close>, the call ends there, whatever \<open>max_tries\<close> is. It
  has made \<open>n + 1\<close> attempts, and it throws the exception that belongs to that response.
\<close>

theorem non_io_failure_is_final:
  assumes "(continues sync_function sleep max_tries options delay_last_attempt ^^ n)
             (initial_locals (snd (register_handler options w))) s"
    and "loop_cond max_tries (incr_attempt s)"
    and "sync_function (world s) = (Failed e, w')"
    and "error_type e \<noteq> IO_ERROR"
  shows "\<exists>r. ExecuteSyncRequest pb sleep sync_function max_tries options delay_last_attempt w = Some r
           \<and> outcome r = Inl (thrown_exception pb e)
           \<and> attempts r = n + 1
           \<and> last_response r = Some (Failed e)"
proof -
  let ?w0 = "snd (register_handler options w)"
  let ?s0 = "initial_locals ?w0"
  let ?end = "(incr_attempt s)\<lparr>response := Some (Failed e), world := w', calls := calls s + 1\<rparr>"
  have "retry_loop sync_function sleep max_tries options delay_last_attempt ?s0
          = retry_loop sync_function sleep max_tries options delay_last_attempt s"
    using assms(1) by (rule retry_loop_relpow)
  also have "\<dots> = Some ?end"
    using assms(2-4) by (intro retry_loop_break) (simp_all add: loop_body_non_io incr_attempt_def)
  finally have run: "retry_loop sync_function sleep max_tries options delay_last_attempt ?s0 = Some ?end" .
  have "calls s = n"
    using relpow_calls [OF assms(1)] by (simp add: initial_locals_fields)
  then show ?thesis
    by (simp add: ExecuteSyncRequest_unfold run leave_fields conclude_def incr_attempt_def
          split: prod.splits)
qed

theorem non_io_failure_is_final_witness:
  "\<exists>r. ExecuteSyncRequest example_pb ticking_sleep scripted_attempt 5 example_options False
          (example_world [io_failure, access_denied]) = Some r
       \<and> outcome r = Inl (PosixErrorException 13
            ''The server denied the requested operation. Error Value: POSIX_ERROR_EACCES Error message: access denied'')
       \<and> attempts r = 2"
proof -
  let ?w = "\<lparr>now = 1002, intr_pointer = False,
             signal_handlers = (\<lambda>n. SIG_DFL)(10 := InterruptSyncRequest), ext = [access_denied]\<rparr>"
  let ?s = "\<lparr>attempt = 1, interrupted = False, response = Some io_failure, world = ?w, calls = 1\<rparr>"
  let ?e = "\<lparr>error_type = ERRNO, error_message = ''access denied'', posix_errno = 13,
             redirect_to_server_uuid = None\<rparr>"
  have "continues scripted_attempt ticking_sleep 5 example_options False
          (initial_locals (snd (register_handler example_options (example_world [io_failure, access_denied])))) ?s"
    by (simp add: example_defs engine_defs delay_loop.simps word_sle_eq word_sless_alt Let_def)
  then have reach: "(continues scripted_attempt ticking_sleep 5 example_options False ^^ 1)
          (initial_locals (snd (register_handler example_options (example_world [io_failure, access_denied])))) ?s"
    by (simp add: eq_OO)
  have cond: "loop_cond 5 (incr_attempt ?s)"
    by (simp add: loop_cond_def incr_attempt_def word_sle_eq)
  have sf: "scripted_attempt (world ?s) = (Failed ?e, ?w\<lparr>ext := []\<rparr>)"
    by (simp add: scripted_attempt_def access_denied_def)
  have ne: "error_type ?e \<noteq> IO_ERROR"
    by simp
  from non_io_failure_is_final [OF reach cond sf ne, of example_pb]
  show ?thesis
    by (auto simp: example_pb_def posix_errno_string_def thrown_exception_def Let_def)
qed

text \<open>
  C2. With \<open>max_tries = 1\<close>, for every attempt function, every world and both values
  of \<open>delay_last_attempt\<close>: a call that returns or throws has invoked the attempt
  function exactly once. The attempt function was applied to the world the call
  started in; the call is left with the response of that one application, or with no
  response when the interruption was seen; and the world the call leaves is the one
  that application left, moved on by sleeps only (with the flag cleared after an
  interruption, and the signal handler restored). The only other possibility is a call
  that never ends, and then it is the wait after the one attempt (an IO error, with
  \<open>delay_last_attempt\<close>) that does not end.
\<close>

theorem single_try_one_attempt:
  fixes sync_function :: "'x world \<Rightarrow> 'm response \<times> 'x world"
  shows "case ExecuteSyncRequest pb sleep sync_function 1 options delay_last_attempt w of
     Some r \<Rightarrow>
       attempts r = 1
       \<and> (\<exists>resp w1 k.
             sync_function (snd (register_handler options w)) = (resp, w1)
             \<and> (last_response r = Some resp
                  \<and> final_world r
                      = (if interrupt_signal options \<noteq> 0
                         then snd (signal (interrupt_signal options)
                                     (fst (register_handler options w)) ((sleep ^^ k) w1))
                         else (sleep ^^ k) w1)
                \<or> last_response r = None
                  \<and> interrupt_requested options ((sleep ^^ k) w1)
                  \<and> final_world r
                      = snd (signal (interrupt_signal options)
                               (fst (register_handler options w))
                               (((sleep ^^ k) w1)\<lparr>intr_pointer := False\<rparr>))))
   | None \<Rightarrow>
       delay_last_attempt
       \<and> (\<exists>e w1. sync_function (snd (register_handler options w)) = (Failed e, w1)
                 \<and> error_type e = IO_ERROR
                 \<and> delay_loop sleep options (now (snd (register_handler options w))) False w1 = None)"
proof -
  let ?start = "snd (register_handler options w)"
  let ?previous = "fst (register_handler options w)"
  let ?init = "initial_locals ?start :: ('m, 'x) locals"
  let ?first = "incr_attempt ?init"
  let ?loop = "retry_loop sync_function sleep 1 options delay_last_attempt"
  let ?body = "loop_body sync_function sleep 1 options delay_last_attempt"
  have first: "attempt ?first = 1" "\<not> interrupted ?first" "calls ?first = 0" "world ?first = ?start"
    by (simp_all add: incr_attempt_def initial_locals_fields)
  then have cond: "loop_cond 1 ?first"
    by (simp add: loop_cond_def)
  have last: "?loop s = Some (incr_attempt s)" if "attempt s = 1" for s
  proof (rule retry_loop_exit)
    show "\<not> loop_cond 1 (incr_attempt s)"
      using that by (simp add: loop_cond_def incr_attempt_def word_sle_eq)
  qed
  have ended: ?thesis
    if run: "?loop ?init = Some t'" and body: "?body ?first = Some c"
      and c: "c = Break t \<or> c = Continue t"
      and same: "calls t' = calls t" "response t' = response t" "world t' = world t"
    for c t t'
  proof -
    from loop_body_once [OF body c] first
    obtain resp w1 k where sf: "sync_function ?start = (resp, w1)"
      and once: "response t = Some resp \<and> world t = (sleep ^^ k) w1
              \<or> response t = None \<and> interrupt_requested options ((sleep ^^ k) w1)
                  \<and> world t = ((sleep ^^ k) w1)\<lparr>intr_pointer := False\<rparr>"
      by auto
    have "calls t = 1"
      using c loop_body_calls [of sync_function sleep 1 options delay_last_attempt ?first t] body first
      by auto
    let ?r = "leave pb options ?previous t'"
    have exec: "ExecuteSyncRequest pb sleep sync_function 1 options delay_last_attempt w = Some ?r"
      using run by (simp add: ExecuteSyncRequest_unfold)
    have fields: "attempts ?r = 1" "last_response ?r = response t"
      "final_world ?r = (if interrupt_signal options \<noteq> 0
                         then snd (signal (interrupt_signal options) ?previous (world t))
                         else world t)"
      using same \<open>calls t = 1\<close> by (simp_all add: leave_def Let_def)
    from once have "last_response ?r = Some resp
                  \<and> final_world ?r
                      = (if interrupt_signal options \<noteq> 0
                         then snd (signal (interrupt_signal options) ?previous ((sleep ^^ k) w1))
                         else (sleep ^^ k) w1)
                \<or> last_response ?r = None
                  \<and> interrupt_requested options ((sleep ^^ k) w1)
                  \<and> final_world ?r
                      = snd (signal (interrupt_signal options) ?previous
                               (((sleep ^^ k) w1)\<lparr>intr_pointer := False\<rparr>))"
      by (auto simp: fields interrupt_requested_def)
    with sf have "\<exists>resp w1 k.
             sync_function ?start = (resp, w1)
             \<and> (last_response ?r = Some resp
                  \<and> final_world ?r
                      = (if interrupt_signal options \<noteq> 0
                         then snd (signal (interrupt_signal options) ?previous ((sleep ^^ k) w1))
                         else (sleep ^^ k) w1)
                \<or> last_response ?r = None
                  \<and> interrupt_requested options ((sleep ^^ k) w1)
                  \<and> final_world ?r
                      = snd (signal (interrupt_signal options) ?previous
                               (((sleep ^^ k) w1)\<lparr>intr_pointer := False\<rparr>)))"
      by blast
    with fields(1) show ?thesis
      by (simp only: exec option.case)
  qed
  consider (hang) "?body ?first = None" | (break) s' where "?body ?first = Some (Break s')"
    | (continue) s' where "?body ?first = Some (Continue s')"
  proof (cases "?body ?first")
    case None
    then show ?thesis by (rule hang)
  next
    case (Some c)
    then show ?thesis by (cases c) (auto intro: break continue)
  qed
  then show ?thesis
  proof cases
    case hang
    then have "?loop ?init = None"
      using cond by (intro retry_loop_hang)
    moreover from hang first
    have "\<exists>e w1. sync_function ?start = (Failed e, w1) \<and> retry_allowed 1 delay_last_attempt e 1
            \<and> delay_loop sleep options (now ?start) False w1 = None"
      by (simp add: loop_body_None)
    then have "delay_last_attempt \<and> (\<exists>e w1. sync_function ?start = (Failed e, w1)
            \<and> error_type e = IO_ERROR \<and> delay_loop sleep options (now ?start) False w1 = None)"
      by (auto simp: retry_allowed_def)
    ultimately show ?thesis
      by (simp add: ExecuteSyncRequest_unfold)
  next
    case break
    then have "?loop ?init = Some s'"
      using cond by (intro retry_loop_break)
    from ended [OF this break] show ?thesis
      by simp
  next
    case continue
    with cond have step: "continues sync_function sleep 1 options delay_last_attempt ?init s'"
      by (simp add: continues_def)
    then have "attempt s' = 1"
      by (simp add: continues_facts initial_locals_fields)
    moreover have "?loop ?init = ?loop s'"
      using step by (rule retry_loop_continue)
    ultimately have "?loop ?init = Some (incr_attempt s')"
      by (simp add: last)
    from ended [OF this continue, of s'] show ?thesis
      by (simp add: incr_attempt_def)
  qed
qed

theorem single_try_one_attempt_witness:
  "\<exists>r. ExecuteSyncRequest example_pb ticking_sleep scripted_attempt 1 example_options True
          (example_world [io_failure, io_failure]) = Some r
       \<and> attempts r = 1
       \<and> last_response r = Some io_failure
       \<and> ext (final_world r) = [io_failure]"
proof -
  have "\<exists>r. ExecuteSyncRequest example_pb ticking_sleep scripted_attempt 1 example_options True
          (example_world [io_failure, io_failure]) = Some r
       \<and> last_response r = Some io_failure
       \<and> ext (final_world r) = [io_failure]"
    by (simp add: example_defs engine_defs retry_loop.simps delay_loop.simps word_sle_eq
          word_sless_alt Let_def)
  with single_try_one_attempt [where pb = example_pb and sleep = ticking_sleep
      and sync_function = scripted_attempt and options = example_options
      and delay_last_attempt = True and w = "example_world [io_failure, io_failure]"]
  show ?thesis
    by (auto split: option.splits)
qed

text \<open>
  C3. With \<open>max_tries = 0\<close> and for every \<open>n\<close>: let the first \<open>n\<close> attempts all fail
  with \<open>IO_ERROR\<close>, the wait after each of them ending without the interrupt flag
  being seen (\<open>v i\<close> is the world in which attempt \<open>i + 1\<close> starts, \<open>u i\<close> the world in
  which it returns). Then the loop comes to its condition with \<open>n\<close> attempts made, the
  condition holds, and attempt \<open>n + 1\<close> is made in the world \<open>v n\<close>; a call that ends
  has made more than \<open>n\<close> attempts. A call that ends has left the loop with a
  successful response, with a failure of another type than \<open>IO_ERROR\<close>, or with no
  response, which is the interruption that the loop has seen. When every attempt
  fails so and every wait ends so, the call never ends.
\<close>

theorem unlimited_tries_retry_until_stopped:
  fixes sync_function :: "'x world \<Rightarrow> 'm response \<times> 'x world"
  assumes start: "v 0 = snd (register_handler options w)"
    and failures: "\<And>i. i < n \<Longrightarrow>
            sync_function (v i) = (Failed (e i), u i) \<and> error_type (e i) = IO_ERROR
            \<and> delay_loop sleep options (now (v i)) False (u i) = Some (False, v (Suc i))"
  shows "(\<exists>s. (continues sync_function sleep 0 options delay_last_attempt ^^ n)
                (initial_locals (snd (register_handler options w))) s
             \<and> world s = v n \<and> calls s = n \<and> loop_cond 0 (incr_attempt s))
       \<and> (\<forall>r. ExecuteSyncRequest pb sleep sync_function 0 options delay_last_attempt w = Some r \<longrightarrow>
              n < attempts r
              \<and> ((\<exists>m. last_response r = Some (Succeeded m))
                 \<or> (\<exists>e. last_response r = Some (Failed e) \<and> error_type e \<noteq> IO_ERROR)
                 \<or> (last_response r = None \<and> interrupt_signal options \<noteq> 0)))
       \<and> ((\<forall>i. sync_function (v i) = (Failed (e i), u i) \<and> error_type (e i) = IO_ERROR
                \<and> delay_loop sleep options (now (v i)) False (u i) = Some (False, v (Suc i)))
            \<longrightarrow> ExecuteSyncRequest pb sleep sync_function 0 options delay_last_attempt w = None)"
proof -
  let ?init = "initial_locals (snd (register_handler options w)) :: ('m, 'x) locals"
  let ?step = "continues sync_function sleep 0 options delay_last_attempt"
  let ?loop = "retry_loop sync_function sleep 0 options delay_last_attempt"
  from io_failures_reach [of n sync_function v e u sleep options delay_last_attempt] failures start
  obtain s where reach: "(?step ^^ n) ?init s" and w: "world s = v n"
    by auto
  have calls: "calls s = n"
    using relpow_calls [OF reach] by (simp add: initial_locals_fields)
  have "\<not> interrupted s"
    using reach by (rule relpow_not_interrupted) (simp add: initial_locals_fields)
  then have cond: "loop_cond 0 (incr_attempt s)"
    by (simp add: loop_cond_def incr_attempt_def)
  have ended: "n < attempts r \<and> ((\<exists>m. last_response r = Some (Succeeded m))
                 \<or> (\<exists>e. last_response r = Some (Failed e) \<and> error_type e \<noteq> IO_ERROR)
                 \<or> (last_response r = None \<and> interrupt_signal options \<noteq> 0))"
    if "ExecuteSyncRequest pb sleep sync_function 0 options delay_last_attempt w = Some r" for r
  proof -
    from that obtain s' where run: "?loop ?init = Some s'"
      and r: "r = leave pb options (fst (register_handler options w)) s'"
      by (auto simp: ExecuteSyncRequest_unfold)
    from io_failures_more_attempts [of n sync_function v e u sleep options delay_last_attempt s']
      failures run start
    have "n < calls s'" by simp
    moreover from retry_loop_unlimited_end [OF run]
    have "(\<exists>m. response s' = Some (Succeeded m))
       \<or> (\<exists>e. response s' = Some (Failed e) \<and> error_type e \<noteq> IO_ERROR)
       \<or> (response s' = None \<and> interrupt_signal options \<noteq> 0)"
      by (simp add: initial_locals_fields)
    ultimately show ?thesis
      by (simp add: r leave_fields)
  qed
  have forever: "ExecuteSyncRequest pb sleep sync_function 0 options delay_last_attempt w = None"
    if always: "\<forall>i. sync_function (v i) = (Failed (e i), u i) \<and> error_type (e i) = IO_ERROR
                \<and> delay_loop sleep options (now (v i)) False (u i) = Some (False, v (Suc i))"
  proof (rule ccontr)
    assume "ExecuteSyncRequest pb sleep sync_function 0 options delay_last_attempt w \<noteq> None"
    then obtain s' where run: "?loop ?init = Some s'"
      by (auto simp: ExecuteSyncRequest_unfold)
    from io_failures_more_attempts [of "calls s'" sync_function v e u sleep options
        delay_last_attempt s'] always run start
    have "calls s' < calls s'" by simp
    then show False by simp
  qed
  from reach w calls cond ended forever show ?thesis by blast
qed

theorem unlimited_tries_retry_until_stopped_witness:
  "\<exists>r. ExecuteSyncRequest example_pb ticking_sleep scripted_attempt 0 example_options False
          (example_world [io_failure, io_failure, Succeeded 7]) = Some r
       \<and> 2 < attempts r"
proof -
  let ?script = "[io_failure, io_failure, Succeeded 7]"
  let ?w = "example_world ?script"
  let ?v = "\<lambda>i. (snd (register_handler example_options ?w))\<lparr>now := 1000 + 2 * int i, ext := drop i ?script\<rparr>"
  let ?u = "\<lambda>i. (snd (register_handler example_options ?w))\<lparr>now := 1000 + 2 * int i, ext := drop (Suc i) ?script\<rparr>"
  let ?e = "\<lambda>i::nat. \<lparr>error_type = IO_ERROR, error_message = ''connection reset'', posix_errno = 0,
             redirect_to_server_uuid = None\<rparr>"
  have start: "?v 0 = snd (register_handler example_options ?w)"
    by (simp add: example_defs register_handler_def signal_def)
  have failures: "scripted_attempt (?v i) = (Failed (?e i), ?u i) \<and> error_type (?e i) = IO_ERROR
            \<and> delay_loop ticking_sleep example_options (now (?v i)) False (?u i) = Some (False, ?v (Suc i))"
    if "i < 2" for i
  proof -
    from that have "i = 0 \<or> i = 1" by auto
    then show ?thesis
      by (auto simp: example_defs register_handler_def signal_def delay_loop.simps
            delay_time_left_def interrupt_requested_def)
  qed
  have "ExecuteSyncRequest example_pb ticking_sleep scripted_attempt 0 example_options False ?w \<noteq> None"
    by (simp add: example_defs engine_defs retry_loop.simps delay_loop.simps word_sle_eq
          word_sless_alt Let_def)
  then obtain r where run: "ExecuteSyncRequest example_pb ticking_sleep scripted_attempt 0
      example_options False ?w = Some r"
    by auto
  with unlimited_tries_retry_until_stopped [where v = ?v and e = ?e and u = ?u and n = 2
      and pb = example_pb and delay_last_attempt = False, OF start failures]
  show ?thesis
    by auto
qed

text \<open>
  C4. Let an attempt, made after \<open>n\<close> retried ones, fail with an IO error that is to be
  retried, and let the interruption be requested (the test of lines 95 and 116: a
  signal is configured for the call and the interrupt flag is set) when the wait
  polls for the \<open>(k + 1)\<close>-th time, the wait not being over before. Then no further
  attempt is made, the response is discarded, the flag is cleared, and the call throws
  \<open>PosixErrorException(EINTR, "The operation was aborted by the user.")\<close>.
\<close>

theorem cancelled_during_delay:
  assumes reach: "(continues sync_function sleep max_tries options delay_last_attempt ^^ n)
                    (initial_locals (snd (register_handler options w))) s"
    and cond: "loop_cond max_tries (incr_attempt s)"
    and sf: "sync_function (world s) = (Failed e, w1)"
    and retry: "retry_allowed max_tries delay_last_attempt e (attempt s + 1)"
    and waiting: "\<And>j. j < k \<Longrightarrow> \<not> interrupt_requested options ((sleep ^^ j) w1)
                     \<and> 0 < delay_time_left options (now (world s)) ((sleep ^^ j) w1)"
    and requested: "interrupt_requested options ((sleep ^^ k) w1)"
  shows "\<exists>r. ExecuteSyncRequest pb sleep sync_function max_tries options delay_last_attempt w = Some r
           \<and> outcome r = Inl (PosixErrorException EINTR ''The operation was aborted by the user.'')
           \<and> attempts r = n + 1
           \<and> last_response r = None
           \<and> \<not> intr_pointer (final_world r)"
proof -
  let ?init = "initial_locals (snd (register_handler options w))"
  let ?loop = "retry_loop sync_function sleep max_tries options delay_last_attempt"
  let ?end = "(incr_attempt s)\<lparr>response := None, interrupted := True,
                world := ((sleep ^^ k) w1)\<lparr>intr_pointer := False\<rparr>, calls := calls s + 1\<rparr>"
  have wait: "delay_loop sleep options (now (world s)) False w1 = Some (True, (sleep ^^ k) w1)"
    using waiting requested by (rule delay_loop_interrupted)
  have quiet: "\<not> interrupted s"
    using cond by (simp add: loop_cond_def incr_attempt_def)
  have sig: "interrupt_signal options \<noteq> 0"
    using requested by (simp add: interrupt_requested_def)
  have "loop_body sync_function sleep max_tries options delay_last_attempt (incr_attempt s)
          = Some (Break ?end)"
    using sf retry wait requested quiet
    by (simp add: loop_body_def incr_attempt_def after_attempt_def)
  with cond have "?loop s = Some ?end"
    by (rule retry_loop_break)
  moreover have "?loop ?init = ?loop s"
    using reach by (rule retry_loop_relpow)
  moreover have "calls s = n"
    using relpow_calls [OF reach] by (simp add: initial_locals_fields)
  ultimately show ?thesis
    by (simp add: ExecuteSyncRequest_unfold leave_def conclude_def incr_attempt_def signal_def sig)
qed

theorem cancelled_during_delay_witness:
  "\<exists>r. ExecuteSyncRequest example_pb interrupting_sleep scripted_attempt 3 example_options False
          (example_world [io_failure, io_failure]) = Some r
       \<and> outcome r = Inl (PosixErrorException 4 ''The operation was aborted by the user.'')
       \<and> attempts r = 1 \<and> last_response r = None"
proof -
  let ?start = "snd (register_handler example_options (example_world [io_failure, io_failure]))"
  let ?init = "initial_locals ?start :: (nat, nat response list) locals"
  let ?e = "\<lparr>error_type = IO_ERROR, error_message = ''connection reset'', posix_errno = 0,
             redirect_to_server_uuid = None\<rparr>"
  let ?returned = "?start\<lparr>ext := [io_failure]\<rparr>"
  have reach: "(continues scripted_attempt interrupting_sleep 3 example_options False ^^ 0) ?init ?init"
    by simp
  have cond: "loop_cond 3 (incr_attempt ?init)"
    by (simp add: loop_cond_def incr_attempt_def initial_locals_def word_sle_eq)
  have sf: "scripted_attempt (world ?init) = (Failed ?e, ?returned)"
    by (simp add: example_defs initial_locals_def register_handler_def signal_def)
  have retry: "retry_allowed 3 False ?e (attempt ?init + 1)"
    by (simp add: retry_allowed_def initial_locals_def word_sless_alt)
  have waiting: "\<not> interrupt_requested example_options ((interrupting_sleep ^^ j) ?returned)
      \<and> 0 < delay_time_left example_options (now (world ?init)) ((interrupting_sleep ^^ j) ?returned)"
    if "j < 1" for j
    using that
    by (simp add: example_defs initial_locals_def register_handler_def signal_def
          delay_time_left_def interrupt_requested_def)
  have requested: "interrupt_requested example_options ((interrupting_sleep ^^ 1) ?returned)"
    by (simp add: interrupting_sleep_def interrupt_requested_def example_options_def)
  from cancelled_during_delay [OF reach cond sf retry waiting requested, of example_pb]
  show ?thesis
    by (auto simp: EINTR_def)
qed



text \<open>
  C9. For a pass through the loop that goes on to a next attempt: the next attempt
  starts no earlier than \<open>retry_delay_s\<close> seconds after the start of this one; when
  this attempt itself took \<open>retry_delay_s\<close> seconds or more, the next one starts in the
  world in which this one returned, with no sleep at all; and when the clock moves by
  at most a second during one sleep, the time that passes between the return of this
  attempt and the start of the next is \<open>max(0, retry_delay_s - d)\<close>, where \<open>d\<close> is the
  time this attempt took. The loop then goes on from the locals it has at the
  condition, so the next attempt is made in that world.
\<close>

theorem delay_is_remainder:
  assumes step: "continues sync_function sleep max_tries options delay_last_attempt s s'"
  shows "retry_delay_s options \<le> now (world s') - now (world s)
       \<and> (\<forall>r w1. sync_function (world s) = (r, w1) \<longrightarrow>
             (retry_delay_s options \<le> now w1 - now (world s) \<longrightarrow> world s' = w1)
           \<and> ((\<forall>v. now (sleep v) = now v \<or> now (sleep v) = now v + 1) \<longrightarrow>
                now (world s') - now w1
                  = max 0 (retry_delay_s options - (now w1 - now (world s)))))
       \<and> retry_loop sync_function sleep max_tries options delay_last_attempt s
           = retry_loop sync_function sleep max_tries options delay_last_attempt s'"
proof -
  from continues_facts(4,5) [OF step]
  obtain e w1 where sf: "sync_function (world s) = (Failed e, w1)"
    and wait: "delay_loop sleep options (now (world s)) False w1 = Some (False, world s')"
    and quiet: "\<not> (interrupt_requested options (world s'))"
    by blast
  from delay_loop_result [OF wait] quiet
  have "delay_time_left options (now (world s)) (world s') = 0"
    by (simp split: if_splits)
  then have floor: "retry_delay_s options \<le> now (world s') - now (world s)"
    by (simp add: delay_time_left_def)
  have none: "world s' = w1" if "retry_delay_s options \<le> now w1 - now (world s)"
  proof -
    from that have left: "delay_time_left options (now (world s)) w1 = 0"
      by (simp add: delay_time_left_def)
    have "\<not> (interrupt_requested options w1)"
    proof
      assume "interrupt_requested options w1"
      then have "delay_loop sleep options (now (world s)) False w1 = Some (True, w1)"
        by (subst delay_loop.simps) simp
      with wait show False by simp
    qed
    from delay_loop_elapsed [OF this left, of sleep False] wait show ?thesis by simp
  qed
  have exact: "now (world s') - now w1 = max 0 (retry_delay_s options - (now w1 - now (world s)))"
    if "\<forall>v. now (sleep v) = now v \<or> now (sleep v) = now v + 1"
    using delay_loop_ticks [OF wait] that quiet by (simp add: delay_time_left_def)
  have "retry_loop sync_function sleep max_tries options delay_last_attempt s
           = retry_loop sync_function sleep max_tries options delay_last_attempt s'"
    using step by (rule retry_loop_continue)
  with floor none exact sf show ?thesis by auto
qed

theorem delay_is_remainder_witness:
  "\<exists>s'. continues slow_attempt ticking_sleep 5 example_options False
          (initial_locals (example_world [io_failure, io_failure])) s'
       \<and> now (world s') - 1000 = 2
       \<and> now (world s') - 1001 = max 0 (2 - (1001 - 1000))"
proof -
  let ?init = "initial_locals (example_world [io_failure, io_failure]) :: (nat, nat response list) locals"
  let ?w1 = "\<lparr>now = 1001, intr_pointer = False, signal_handlers = (\<lambda>n. SIG_DFL), ext = [io_failure]\<rparr>"
  let ?s = "\<lparr>attempt = 1, interrupted = False, response = Some io_failure,
             world = ?w1\<lparr>now := 1002\<rparr>, calls = 1\<rparr>"
  have step: "continues slow_attempt ticking_sleep 5 example_options False ?init ?s"
    by (simp add: slow_attempt_def example_defs engine_defs delay_loop.simps word_sle_eq
          word_sless_alt Let_def)
  have sf: "slow_attempt (world ?init) = (io_failure, ?w1)"
    by (simp add: slow_attempt_def example_defs initial_locals_def)
  have ticks: "\<forall>v :: nat response list world. now (ticking_sleep v) = now v \<or> now (ticking_sleep v) = now v + 1"
    by (simp add: ticking_sleep_def)
  from delay_is_remainder [OF step] sf ticks
  have "retry_delay_s example_options \<le> now (world ?s) - now (world ?init)
      \<and> now (world ?s) - now ?w1 = max 0 (retry_delay_s example_options - (now ?w1 - now (world ?init)))"
    by blast
  with step show ?thesis
    by (intro exI [of _ ?s]) (simp add: example_defs initial_locals_def)
qed

text \<open>
  C10. For every negative \<open>max_tries\<close> the attempt function is never invoked, and the
  call throws \<open>PosixErrorException(EINTR, "The operation was aborted by the user.")\<close>,
  the exception of an interrupted call, in every world and with every option, also
  when no interruption was requested.
\<close>

theorem negative_max_tries_aborts:
  assumes "max_tries <s 0"
  shows "\<exists>r. ExecuteSyncRequest pb sleep sync_function max_tries options delay_last_attempt w = Some r
           \<and> outcome r = Inl (PosixErrorException EINTR ''The operation was aborted by the user.'')
           \<and> attempts r = 0
           \<and> last_response r = None"
proof -
  let ?w0 = "snd (register_handler options w)"
  let ?s0 = "initial_locals ?w0"
  have "\<not> (1 \<le>s max_tries)" and "max_tries \<noteq> 0"
    using assms by (auto simp: word_sle_eq word_sless_alt)
  then have "\<not> loop_cond max_tries (incr_attempt ?s0)"
    by (simp add: loop_cond_def incr_attempt_def initial_locals_fields)
  then have "retry_loop sync_function sleep max_tries options delay_last_attempt ?s0
               = Some (incr_attempt ?s0)"
    by (rule retry_loop_exit)
  then show ?thesis
    by (simp add: ExecuteSyncRequest_unfold leave_fields conclude_def incr_attempt_def initial_locals_fields)
qed

theorem negative_max_tries_aborts_witness:
  "\<exists>r. ExecuteSyncRequest example_pb ticking_sleep scripted_attempt (- 1) example_options False
          (example_world [io_failure]) = Some r
       \<and> outcome r = Inl (PosixErrorException 4 ''The operation was aborted by the user.'')
       \<and> attempts r = 0 \<and> last_response r = None"
  using negative_max_tries_aborts [where max_tries = "- 1" and pb = example_pb and sleep = ticking_sleep
      and sync_function = scripted_attempt and options = example_options
      and delay_last_attempt = False and w = "example_world [io_failure]"]
  by (simp add: EINTR_def)

section \<open>The claims about the directory service proxy\<close>

text \<open>
  C6, as stated, fails: with the lock of the cache held by another thread and a
  directory service that knows no mapping for the UUID, the call fails and the stale
  entry is still in the cache, neither evicted nor replaced.
\<close>

theorem stale_entry_kept_counterexample:
  "uuid_to_uri_cache stale_proxy ''gone''
     = Some \<lparr>uri = ''tcp://10.0.0.9:32636'', ttl_s = 60, creation_epoch_time_s = 0\<rparr>
   \<and> real 60 \<le> getCurrentUnixTimeS (example_dir False 100) - 0
   \<and> fst (getURIFromUUID (example_dir False 100) ''gone'' stale_proxy)
       = Inl (Exception ''could not find address mapping for UUID'')
   \<and> uuid_to_uri_cache (snd (getURIFromUUID (example_dir False 100) ''gone'' stale_proxy)) ''gone''
       = Some \<lparr>uri = ''tcp://10.0.0.9:32636'', ttl_s = 60, creation_epoch_time_s = 0\<rparr>"
  by (simp add: dir_defs example_dir_defs)

text \<open>
  C6, amended. For an entry in the cache: the call answers from the cache, with no
  query to the directory service, exactly when it gets the lock and
  \<open>now - creation_time < ttl_s\<close>, and then it returns the entry's URI. Once
  \<open>now - creation_time \<ge> ttl_s\<close> the directory service is queried and the stale entry
  is not returned: when the query gives a mapping, the first one is returned and its
  entry replaces the stale one; when it gives none, the call fails, and the stale
  entry has been erased if the call got the lock and is still there if it did not.
\<close>

theorem stale_entry_not_served:
  assumes "uuid_to_uri_cache p uuid = Some cached"
  shows "(address_mappings_requests (snd (getURIFromUUID env uuid p)) = address_mappings_requests p
            \<longleftrightarrow> try_acquire env
                \<and> getCurrentUnixTimeS env - creation_epoch_time_s cached < real (ttl_s cached))
       \<and> (try_acquire env
            \<and> getCurrentUnixTimeS env - creation_epoch_time_s cached < real (ttl_s cached)
          \<longrightarrow> getURIFromUUID env uuid p = (Inr (uri cached), p))
       \<and> (real (ttl_s cached) \<le> getCurrentUnixTimeS env - creation_epoch_time_s cached
          \<longrightarrow> address_mappings_requests (snd (getURIFromUUID env uuid p))
                = address_mappings_requests p @ [uuid]
              \<and> (case xtreemfs_address_mappings_get env uuid of
                    address_mapping # others \<Rightarrow>
                      fst (getURIFromUUID env uuid p) = Inr (uri_str_of address_mapping)
                      \<and> uuid_to_uri_cache (snd (getURIFromUUID env uuid p)) uuid
                          = Some \<lparr>uri = uri_str_of address_mapping,
                                  ttl_s = get_ttl_s address_mapping,
                                  creation_epoch_time_s = construction_time env\<rparr>
                  | [] \<Rightarrow>
                      fst (getURIFromUUID env uuid p)
                        = Inl (Exception ''could not find address mapping for UUID'')
                      \<and> uuid_to_uri_cache (snd (getURIFromUUID env uuid p)) uuid
                          = (if try_acquire env then None else Some cached)))"
  using assms
  by (auto simp: getURIFromUUID_def cache_lookup_def query_directory_def
        new_CachedAddressMappingURI_def Let_def split: list.splits)

theorem stale_entry_not_served_witness:
  "getURIFromUUID (example_dir True 30) ''gone'' stale_proxy = (Inr ''tcp://10.0.0.9:32636'', stale_proxy)
   \<and> fst (getURIFromUUID (example_dir True 60) ''gone'' stale_proxy)
       = Inl (Exception ''could not find address mapping for UUID'')
   \<and> uuid_to_uri_cache (snd (getURIFromUUID (example_dir True 60) ''gone'' stale_proxy)) ''gone'' = None
   \<and> address_mappings_requests (snd (getURIFromUUID (example_dir True 60) ''gone'' stale_proxy))
       = [''gone'']"
proof -
  let ?cached = "\<lparr>uri = ''tcp://10.0.0.9:32636'', ttl_s = 60, creation_epoch_time_s = 0\<rparr>"
  have entry: "uuid_to_uri_cache stale_proxy ''gone'' = Some ?cached"
    by (simp add: stale_proxy_def)
  from stale_entry_not_served [OF entry, of "example_dir True 30"]
    stale_entry_not_served [OF entry, of "example_dir True 60"]
  show ?thesis
    by (simp add: example_dir_def stale_proxy_def)
qed

text \<open>
  C7. When the cache has no entry for the UUID, the directory service is queried for
  its address mappings. With no mapping the call fails with "could not find address
  mapping for UUID". Otherwise the URI \<open>protocol://address:port\<close> of the first mapping
  is returned, and an entry with this URI, the mapping's \<open>ttl_s\<close> and the current time
  as its creation time is put into the cache.
\<close>

theorem cache_miss_queries_directory:
  assumes "uuid_to_uri_cache p uuid = None"
  shows "getURIFromUUID env uuid p =
     (case xtreemfs_address_mappings_get env uuid of
        [] \<Rightarrow>
          (Inl (Exception ''could not find address mapping for UUID''),
           p\<lparr>address_mappings_requests := address_mappings_requests p @ [uuid]\<rparr>)
      | address_mapping # others \<Rightarrow>
          (Inr (get_protocol address_mapping @ ''://'' @ get_address address_mapping @ '':''
                  @ string_of_nat (get_port address_mapping)),
           p\<lparr>address_mappings_requests := address_mappings_requests p @ [uuid],
              uuid_to_uri_cache := (uuid_to_uri_cache p)(uuid \<mapsto>
                \<lparr>uri = get_protocol address_mapping @ ''://'' @ get_address address_mapping @ '':''
                         @ string_of_nat (get_port address_mapping),
                 ttl_s = get_ttl_s address_mapping,
                 creation_epoch_time_s = construction_time env\<rparr>)\<rparr>))"
  using assms by (simp add: dir_defs split: list.splits)

theorem cache_miss_queries_directory_witness:
  "getURIFromUUID (example_dir True 100) ''srv1'' empty_proxy =
     (Inr ''tcp://10.0.0.5:14'',
      \<lparr>uuid_to_uri_cache =
         [''srv1'' \<mapsto> \<lparr>uri = ''tcp://10.0.0.5:14'', ttl_s = 60, creation_epoch_time_s = 100\<rparr>],
       address_mappings_requests = [''srv1'']\<rparr>)
   \<and> getURIFromUUID (example_dir True 100) ''srv9'' empty_proxy =
     (Inl (Exception ''could not find address mapping for UUID''),
      \<lparr>uuid_to_uri_cache = Map.empty, address_mappings_requests = [''srv9'']\<rparr>)"
  using cache_miss_queries_directory [of empty_proxy "''srv1''" "example_dir True 100"]
    cache_miss_queries_directory [of empty_proxy "''srv9''" "example_dir True 100"]
  by (simp add: example_dir_defs)

text \<open>
  C8. \<open>getVolumeURIFromVolumeName\<close> goes through the services in the order returned
  and through the data of each in order, and returns what \<open>getURIFromUUID\<close> gives for
  the UUID under the first entry named \<open>mrc\<close>: entries after it, in the same service or
  in later ones, play no part. It fails with "unknown volume" when no service is
  returned and when no service has an entry named \<open>mrc\<close>.
\<close>

theorem first_match_wins:
  "getVolumeURIFromVolumeName env volume_name p =
     (case spec_first_mrc (xtreemfs_service_get_by_name env volume_name) of
        Some uuid \<Rightarrow> getURIFromUUID env uuid p
      | None \<Rightarrow> (Inl (Exception ''unknown volume''), p))
   \<and> (\<forall>pre service post before uuid after.
         xtreemfs_service_get_by_name env volume_name = pre @ service # post
         \<and> (\<forall>s \<in> set pre. ''mrc'' \<notin> fst ` set (get_data s))
         \<and> get_data service = before @ (''mrc'', uuid) # after
         \<and> ''mrc'' \<notin> fst ` set before
         \<longrightarrow> getVolumeURIFromVolumeName env volume_name p = getURIFromUUID env uuid p)
   \<and> (xtreemfs_service_get_by_name env volume_name = []
        \<longrightarrow> getVolumeURIFromVolumeName env volume_name p = (Inl (Exception ''unknown volume''), p))
   \<and> ((\<forall>service \<in> set (xtreemfs_service_get_by_name env volume_name).
          ''mrc'' \<notin> fst ` set (get_data service))
        \<longrightarrow> getVolumeURIFromVolumeName env volume_name p = (Inl (Exception ''unknown volume''), p))"
proof (intro conjI allI impI)
  show eq: "getVolumeURIFromVolumeName env volume_name p =
     (case spec_first_mrc (xtreemfs_service_get_by_name env volume_name) of
        Some uuid \<Rightarrow> getURIFromUUID env uuid p
      | None \<Rightarrow> (Inl (Exception ''unknown volume''), p))"
    by (rule getVolumeURIFromVolumeName_first_mrc)
  show "getVolumeURIFromVolumeName env volume_name p = getURIFromUUID env uuid p"
    if "xtreemfs_service_get_by_name env volume_name = pre @ service # post
         \<and> (\<forall>s \<in> set pre. ''mrc'' \<notin> fst ` set (get_data s))
         \<and> get_data service = before @ (''mrc'', uuid) # after
         \<and> ''mrc'' \<notin> fst ` set before"
    for pre service post before uuid after
  proof -
    from that have "spec_first_mrc (xtreemfs_service_get_by_name env volume_name) = Some uuid"
      by (intro spec_first_mrc_decompose [of _ pre service post before uuid after]) simp_all
    then show ?thesis by (simp add: eq)
  qed
  show "getVolumeURIFromVolumeName env volume_name p = (Inl (Exception ''unknown volume''), p)"
    if "xtreemfs_service_get_by_name env volume_name = []"
    using that by (simp add: eq spec_first_mrc_Nil)
  show "getVolumeURIFromVolumeName env volume_name p = (Inl (Exception ''unknown volume''), p)"
    if "\<forall>service \<in> set (xtreemfs_service_get_by_name env volume_name).
          ''mrc'' \<notin> fst ` set (get_data service)"
    using that by (simp add: eq spec_first_mrc_None [THEN iffD2])
qed

theorem first_match_wins_witness:
  "fst (getVolumeURIFromVolumeName (example_dir True 100) ''vol1'' empty_proxy) = Inr ''tcp://10.0.0.5:14''
   \<and> getVolumeURIFromVolumeName (example_dir True 100) ''vol1'' empty_proxy
       = getURIFromUUID (example_dir True 100) ''srv1'' empty_proxy
   \<and> fst (getVolumeURIFromVolumeName (example_dir True 100) ''vol2'' empty_proxy)
       = Inl (Exception ''unknown volume'')
   \<and> fst (getVolumeURIFromVolumeName (example_dir True 100) ''missing'' empty_proxy)
       = Inl (Exception ''unknown volume'')"
  using first_match_wins [of "example_dir True 100" "''vol1''" empty_proxy]
    first_match_wins [of "example_dir True 100" "''vol2''" empty_proxy]
    first_match_wins [of "example_dir True 100" "''missing''" empty_proxy]
  by (simp add: spec_first_mrc_def dir_defs example_dir_defs)

end
